theory Spec2Isabelle
  imports Main
begin

section \<open>Strings\<close>

text \<open>
  \<^verbatim>\<open>route_group.go\<close> joins paths through \<^verbatim>\<open>stringx.String\<close>, a library type
  whose methods are taken to be those of Go's \<^verbatim>\<open>strings\<close> package of the same
  names: \<^verbatim>\<open>TrimSuffix\<close> and \<^verbatim>\<open>TrimPrefix\<close> remove one occurrence of the given suffix
  or prefix when it is there, \<^verbatim>\<open>Concat\<close> appends. A Go string is a sequence of
  bytes, here a \<^typ>\<open>string\<close>.
\<close>

definition HasPrefix :: "string \<Rightarrow> string \<Rightarrow> bool" where
  "HasPrefix s pre = (length pre \<le> length s \<and> take (length pre) s = pre)"

definition HasSuffix :: "string \<Rightarrow> string \<Rightarrow> bool" where
  "HasSuffix s suf = (length suf \<le> length s \<and> drop (length s - length suf) s = suf)"

definition TrimPrefix :: "string \<Rightarrow> string \<Rightarrow> string" where
  "TrimPrefix s pre = (if HasPrefix s pre then drop (length pre) s else s)"

definition TrimSuffix :: "string \<Rightarrow> string \<Rightarrow> string" where
  "TrimSuffix s suf = (if HasSuffix s suf then take (length s - length suf) s else s)"

definition Concat :: "string \<Rightarrow> string \<Rightarrow> string" where
  "Concat s t = s @ t"

section \<open>Slices and their backing arrays\<close>

text \<open>
  A Go slice is a view \<open>(array, offset, len, cap)\<close> of a backing array that other
  slices may share. The memory is the list of all arrays allocated so far; an
  array's address is its index. \<^verbatim>\<open>append\<close> writes in place when the capacity
  suffices and allocates a new array otherwise; the capacity of the new array is
  the runtime's choice, a parameter \<open>grow\<close> here (old capacity, needed length),
  never less than the needed length.
\<close>

record slice =
  arr :: nat
  off :: nat
  len :: nat
  cap :: nat

type_synonym 'a memory = "'a list list"

definition nil_slice :: slice where
  "nil_slice = \<lparr>arr = 0, off = 0, len = 0, cap = 0\<rparr>"

definition rd :: "'a memory \<Rightarrow> slice \<Rightarrow> 'a list" where
  "rd M s = (if len s = 0 then [] else take (len s) (drop (off s) (M ! arr s)))"

definition valid :: "'a memory \<Rightarrow> slice \<Rightarrow> bool" where
  "valid M s = (len s \<le> cap s \<and>
     (cap s = 0 \<or> (arr s < length M \<and> off s + cap s \<le> length (M ! arr s))))"

definition overwrite :: "'a list \<Rightarrow> nat \<Rightarrow> 'a list \<Rightarrow> 'a list" where
  "overwrite a i xs = take i a @ xs @ drop (i + length xs) a"

definition append_slice ::
  "(nat \<Rightarrow> nat \<Rightarrow> nat) \<Rightarrow> 'a \<Rightarrow> 'a memory \<Rightarrow> slice \<Rightarrow> 'a list \<Rightarrow> slice \<times> 'a memory" where
  "append_slice grow zero M s xs =
     (let n = len s + length xs in
      if xs = [] then (s, M)
      else if n \<le> cap s then
        (s\<lparr>len := n\<rparr>, M[arr s := overwrite (M ! arr s) (off s + len s) xs])
      else
        (let c = max n (grow (cap s) n) in
         (\<lparr>arr = length M, off = 0, len = n, cap = c\<rparr>,
          M @ [rd M s @ xs @ replicate (c - n) zero])))"

text \<open>
  The slice a variadic call builds from the arguments written at the call site:
  \<^verbatim>\<open>nil\<close> for none, else a fresh array of exactly that length.
\<close>

definition variadic :: "'a memory \<Rightarrow> 'a list \<Rightarrow> slice \<times> 'a memory" where
  "variadic M xs =
     (if xs = [] then (nil_slice, M)
      else (\<lparr>arr = length M, off = 0, len = length xs, cap = length xs\<rparr>, M @ [xs]))"

section \<open>Route groups\<close>

text \<open>
  \<^verbatim>\<open>RouteManager\<close> is the interface of the root server and of a group; a group
  holds the manager it registers with, its base path and its middleware slice.
\<close>

datatype RouteManager =
    Server
  | RouteGroup (server: RouteManager) (basePath: string) (middlewares: slice)

definition NewRouteGroup :: "RouteManager \<Rightarrow> string \<Rightarrow> slice \<Rightarrow> RouteManager" where
  "NewRouteGroup srv base ms = RouteGroup srv base ms"

definition separator :: string where
  "separator = ''/''"

definition fullPath :: "RouteManager \<Rightarrow> string \<Rightarrow> string" where
  "fullPath g path =
     (if path = ''/'' \<or> path = '''' then basePath g
      else Concat (Concat (TrimSuffix (basePath g) separator) separator)
             (TrimPrefix path separator))"

section \<open>Handler normalisation\<close>

text \<open>
  A \<^verbatim>\<open>Handler\<close> takes the request and response views and yields an outcome: the
  returned error together with everything the call does to the response. The
  outcome type is left open, and so are the types of the views and of the
  context. A nil function value is the function whose every call panics, one of
  the outcomes.
\<close>

type_synonym ('q, 's, 'o) Handler = "'q \<Rightarrow> 's \<Rightarrow> 'o"

text \<open>
  A value of the empty interface \<^verbatim>\<open>any\<close>, by its dynamic type: the four types the
  type switch of \<^verbatim>\<open>validateHandler\<close> names, any other type (with the text
  \<^verbatim>\<open>reflect.TypeOf\<close> prints for it), and the nil interface.
\<close>

datatype ('q, 's, 'c, 'o) any =
    Handler_value "('q, 's, 'o) Handler"
  | HandlerWithContext_value "'c \<Rightarrow> 'o"
  | func_Request_Response_value "'q \<Rightarrow> 's \<Rightarrow> 'o"
  | func_Context_value "'c \<Rightarrow> 'o"
  | other_value string
  | nil_value

fun TypeOf :: "('q, 's, 'c, 'o) any \<Rightarrow> string" where
  "TypeOf (Handler_value h) = ''server.Handler''"
| "TypeOf (HandlerWithContext_value h) = ''server.HandlerWithContext''"
| "TypeOf (func_Request_Response_value h) = ''func(*server.Request, *server.Response) error''"
| "TypeOf (func_Context_value h) = ''func(*server.Context) error''"
| "TypeOf (other_value t) = t"
| "TypeOf nil_value = ''<nil>''"

datatype error =
    ErrPutAHandler
  | invalid_handler_type string
  | middleware_at_position nat error
  | final_handler error

function Itoa :: "nat \<Rightarrow> string" where
  "Itoa n = (if n < 10 then [''0123456789'' ! n]
             else Itoa (n div 10) @ [''0123456789'' ! (n mod 10)])"
  by pat_completeness auto
termination
  by (relation "measure id") auto

text \<open>
  The text of an error, as \<^verbatim>\<open>fmt.Errorf\<close> builds it. The text of the sentinel
  \<^verbatim>\<open>ErrPutAHandler\<close> is declared in a source file that is not available and is a
  parameter.
\<close>

fun Error :: "string \<Rightarrow> error \<Rightarrow> string" where
  "Error put ErrPutAHandler = put"
| "Error put (invalid_handler_type t) =
     ''invalid handler type: '' @ t @ '' - must be either nine.Handler or nine.HandlerWithContext''"
| "Error put (middleware_at_position i err) =
     ''middleware at position '' @ Itoa i @ '': '' @ Error put err"
| "Error put (final_handler err) = ''final handler: '' @ Error put err"

text \<open>
  Modelled from the spec: the method \<^verbatim>\<open>Handler\<close> of \<^verbatim>\<open>HandlerWithContext\<close>, whose
  source is not available. The spec (4.1) has the context function "wrapped so
  that a context is constructed per call from the request/response views before
  invocation"; \<open>mkctx\<close> is that construction.
\<close>

definition HandlerWithContext_Handler ::
  "('q \<Rightarrow> 's \<Rightarrow> 'c) \<Rightarrow> ('c \<Rightarrow> 'o) \<Rightarrow> 'q \<Rightarrow> 's \<Rightarrow> ('q, 's, 'o) Handler" where
  "HandlerWithContext_Handler mkctx h req res = (\<lambda>req' res'. h (mkctx req' res'))"

definition validateHandler ::
  "('q \<Rightarrow> 's \<Rightarrow> 'c) \<Rightarrow> ('q, 's, 'c, 'o) any \<Rightarrow> error + ('q, 's, 'o) Handler" where
  "validateHandler mkctx h =
     (case h of
        Handler_value handler \<Rightarrow> Inr handler
      | HandlerWithContext_value handler \<Rightarrow>
          Inr (\<lambda>req res. HandlerWithContext_Handler mkctx handler req res req res)
      | func_Request_Response_value handler \<Rightarrow> Inr handler
      | func_Context_value handler \<Rightarrow>
          Inr (\<lambda>req res. HandlerWithContext_Handler mkctx handler req res req res)
      | _ \<Rightarrow> Inl (invalid_handler_type (TypeOf h)))"

text \<open>
  The loop \<^verbatim>\<open>for i := range lastIndex\<close> of \<^verbatim>\<open>registerHandlers\<close>, from index \<open>i\<close>
  on; \<open>mws\<close> is the local slice \<^verbatim>\<open>middlewares\<close>, which only this function holds.
\<close>

function validate_middlewares ::
  "('q \<Rightarrow> 's \<Rightarrow> 'c) \<Rightarrow> ('q, 's, 'c, 'o) any list \<Rightarrow> nat \<Rightarrow> nat \<Rightarrow>
   ('q, 's, 'o) Handler list \<Rightarrow> error + ('q, 's, 'o) Handler list" where
  "validate_middlewares mkctx handlers lastIndex i mws =
     (if i < lastIndex then
        (case validateHandler mkctx (handlers ! i) of
           Inl err \<Rightarrow> Inl (middleware_at_position i err)
         | Inr middleware \<Rightarrow>
             validate_middlewares mkctx handlers lastIndex (Suc i) (mws @ [middleware]))
      else Inr mws)"
  by pat_completeness auto
termination
  by (relation "measure (\<lambda>(mkctx, handlers, lastIndex, i, mws). lastIndex - i)") auto

definition registerHandlers ::
  "('q \<Rightarrow> 's \<Rightarrow> 'c) \<Rightarrow> ('q, 's, 'c, 'o) any list \<Rightarrow>
   error + (('q, 's, 'o) Handler \<times> ('q, 's, 'o) Handler list)" where
  "registerHandlers mkctx handlers =
     (if length handlers = 0 then Inl ErrPutAHandler
      else
        (let lastIndex = length handlers - 1 in
         case validate_middlewares mkctx handlers lastIndex 0 [] of
           Inl err \<Rightarrow> Inl err
         | Inr mws \<Rightarrow>
             (case validateHandler mkctx (handlers ! lastIndex) of
                Inl err \<Rightarrow> Inl (final_handler err)
              | Inr finalHandler \<Rightarrow> Inr (finalHandler, mws))))"

text \<open>The values the type switch of \<^verbatim>\<open>validateHandler\<close> has a case for.\<close>

fun recognised :: "('q, 's, 'c, 'o) any \<Rightarrow> bool" where
  "recognised (Handler_value h) = True"
| "recognised (HandlerWithContext_value h) = True"
| "recognised (func_Request_Response_value h) = True"
| "recognised (func_Context_value h) = True"
| "recognised (other_value t) = False"
| "recognised nil_value = False"

datatype http_method = GET | POST | PUT | PATCH | DELETE

record ('q, 's, 'o) Route =
  route_method :: http_method
  route_pattern :: string
  route_handler :: "('q, 's, 'o) Handler"
  route_middlewares :: "('q, 's, 'o) Handler list"

text \<open>
  Modelled from the spec: the registration methods of the root \<^verbatim>\<open>Server\<close> of
  package \<^verbatim>\<open>server\<close>, whose source is not available. By the spec (3, 4.1, 8) a
  registration call normalises its handler list, "fails with MissingHandler and
  registers no route" on a failing batch, and otherwise adds the route (method,
  pattern, handler, middleware chain) to the table the server owns.
\<close>

definition Server_registerRoute ::
  "('q \<Rightarrow> 's \<Rightarrow> 'c) \<Rightarrow> ('q, 's, 'o) Route list \<Rightarrow> http_method \<Rightarrow> string \<Rightarrow>
   ('q, 's, 'c, 'o) any list \<Rightarrow> error option \<times> ('q, 's, 'o) Route list" where
  "Server_registerRoute mkctx routes m endpoint handlers =
     (case registerHandlers mkctx handlers of
        Inl err \<Rightarrow> (Some err, routes)
      | Inr (h, mws) \<Rightarrow>
          (None, routes @ [\<lparr>route_method = m, route_pattern = endpoint, route_handler = h,
                            route_middlewares = mws\<rparr>]))"

section \<open>Groups, nested groups and registration\<close>

text \<open>
  The methods of \<^verbatim>\<open>route_group.go\<close>. A variadic parameter is the slice the caller
  passed: \<^verbatim>\<open>NewRouteGroup\<close> keeps it as it is, \<^verbatim>\<open>append\<close> reads its elements. The
  memory is threaded through every call that appends.
\<close>

definition Server_Group :: "string \<Rightarrow> slice \<Rightarrow> RouteManager" where
  "Server_Group base ms = NewRouteGroup Server base ms"

definition RouteGroup_Group ::
  "(nat \<Rightarrow> nat \<Rightarrow> nat) \<Rightarrow> 'a \<Rightarrow> 'a memory \<Rightarrow> RouteManager \<Rightarrow> string \<Rightarrow> slice \<Rightarrow>
   RouteManager \<times> 'a memory" where
  "RouteGroup_Group grow zero M g base ms =
     (let (s, M') = append_slice grow zero M (middlewares g) (rd M ms)
      in (NewRouteGroup (server g) (fullPath g base) s, M'))"

text \<open>The method \<^verbatim>\<open>Group\<close> of the interface, by the receiver's dynamic type.\<close>

fun Group ::
  "(nat \<Rightarrow> nat \<Rightarrow> nat) \<Rightarrow> 'a \<Rightarrow> 'a memory \<Rightarrow> RouteManager \<Rightarrow> string \<Rightarrow> slice \<Rightarrow>
   RouteManager \<times> 'a memory" where
  "Group grow zero M Server base ms = (Server_Group base ms, M)"
| "Group grow zero M (RouteGroup srv b mws) base ms =
     RouteGroup_Group grow zero M (RouteGroup srv b mws) base ms"

text \<open>
  \<^verbatim>\<open>Route\<close> calls \<^verbatim>\<open>Group\<close> with no middleware (a nil variadic slice) and hands the
  group to the callback \<open>fn\<close>, which may do anything with it; the result of
  \<^verbatim>\<open>Route\<close> is what the callback leaves.
\<close>

definition Server_Route :: "'a memory \<Rightarrow> string \<Rightarrow> ('a memory \<Rightarrow> RouteManager \<Rightarrow> 'r) \<Rightarrow> 'r" where
  "Server_Route M base fn = (let group = Server_Group base nil_slice in fn M group)"

definition RouteGroup_Route ::
  "(nat \<Rightarrow> nat \<Rightarrow> nat) \<Rightarrow> 'a \<Rightarrow> 'a memory \<Rightarrow> RouteManager \<Rightarrow> string \<Rightarrow>
   ('a memory \<Rightarrow> RouteManager \<Rightarrow> 'r) \<Rightarrow> 'r" where
  "RouteGroup_Route grow zero M g base fn =
     (let (group, M') = Group grow zero M (server g) (fullPath g base) nil_slice
      in fn M' group)"

definition routeHandlers ::
  "(nat \<Rightarrow> nat \<Rightarrow> nat) \<Rightarrow> 'a \<Rightarrow> 'a memory \<Rightarrow> RouteManager \<Rightarrow> 'a list \<Rightarrow> slice \<times> 'a memory" where
  "routeHandlers grow zero M g handlers = append_slice grow zero M (middlewares g) handlers"

text \<open>
  What reaches the root server: the method called, the endpoint and the handler
  list. The root server's own registration is not part of \<^verbatim>\<open>route_group.go\<close>.
\<close>

record 'a registration =
  reg_method :: http_method
  reg_endpoint :: string
  reg_handlers :: "'a list"

text \<open>
  \<^verbatim>\<open>Get\<close>, \<^verbatim>\<open>Post\<close>, \<^verbatim>\<open>Put\<close>, \<^verbatim>\<open>Patch\<close> and \<^verbatim>\<open>Delete\<close> of a group have one body:
  \<^verbatim>\<open>handlers = g.routeHandlers(handlers...)\<close>, then the same method of \<^verbatim>\<open>g.server\<close>
  on \<^verbatim>\<open>g.fullPath(path)\<close>. \<open>per_verb\<close> is that body for the method \<open>m\<close>; on the
  root server it is the call delivered.
\<close>

fun per_verb ::
  "(nat \<Rightarrow> nat \<Rightarrow> nat) \<Rightarrow> 'a \<Rightarrow> 'a memory \<Rightarrow> RouteManager \<Rightarrow> http_method \<Rightarrow> string \<Rightarrow>
   'a list \<Rightarrow> 'a registration \<times> 'a memory" where
  "per_verb grow zero M Server m path handlers =
     (\<lparr>reg_method = m, reg_endpoint = path, reg_handlers = handlers\<rparr>, M)"
| "per_verb grow zero M (RouteGroup srv b mws) m path handlers =
     (let g = RouteGroup srv b mws;
          (s, M') = routeHandlers grow zero M g handlers
      in per_verb grow zero M' srv m (fullPath g path) (rd M' s))"

definition RouteGroup_Get ::
  "(nat \<Rightarrow> nat \<Rightarrow> nat) \<Rightarrow> 'a \<Rightarrow> 'a memory \<Rightarrow> RouteManager \<Rightarrow> string \<Rightarrow> 'a list \<Rightarrow>
   'a registration \<times> 'a memory" where
  "RouteGroup_Get grow zero M g path handlers = per_verb grow zero M g GET path handlers"

definition RouteGroup_Post ::
  "(nat \<Rightarrow> nat \<Rightarrow> nat) \<Rightarrow> 'a \<Rightarrow> 'a memory \<Rightarrow> RouteManager \<Rightarrow> string \<Rightarrow> 'a list \<Rightarrow>
   'a registration \<times> 'a memory" where
  "RouteGroup_Post grow zero M g path handlers = per_verb grow zero M g POST path handlers"

definition RouteGroup_Put ::
  "(nat \<Rightarrow> nat \<Rightarrow> nat) \<Rightarrow> 'a \<Rightarrow> 'a memory \<Rightarrow> RouteManager \<Rightarrow> string \<Rightarrow> 'a list \<Rightarrow>
   'a registration \<times> 'a memory" where
  "RouteGroup_Put grow zero M g path handlers = per_verb grow zero M g PUT path handlers"

definition RouteGroup_Patch ::
  "(nat \<Rightarrow> nat \<Rightarrow> nat) \<Rightarrow> 'a \<Rightarrow> 'a memory \<Rightarrow> RouteManager \<Rightarrow> string \<Rightarrow> 'a list \<Rightarrow>
   'a registration \<times> 'a memory" where
  "RouteGroup_Patch grow zero M g path handlers = per_verb grow zero M g PATCH path handlers"

definition RouteGroup_Delete ::
  "(nat \<Rightarrow> nat \<Rightarrow> nat) \<Rightarrow> 'a \<Rightarrow> 'a memory \<Rightarrow> RouteManager \<Rightarrow> string \<Rightarrow> 'a list \<Rightarrow>
   'a registration \<times> 'a memory" where
  "RouteGroup_Delete grow zero M g path handlers = per_verb grow zero M g DELETE path handlers"

text \<open>
  A chain of nested groups made one after the other: \<^verbatim>\<open>Group\<close> of the manager
  with the first base path and middleware written at the call site, then
  \<^verbatim>\<open>Group\<close> of the group just made with the next, and so on.
\<close>

fun nest ::
  "(nat \<Rightarrow> nat \<Rightarrow> nat) \<Rightarrow> 'a \<Rightarrow> 'a memory \<Rightarrow> RouteManager \<Rightarrow> (string \<times> 'a list) list \<Rightarrow>
   RouteManager \<times> 'a memory" where
  "nest grow zero M g [] = (g, M)"
| "nest grow zero M g ((base, ms) # steps) =
     (let (s, M1) = variadic M ms;
          (g', M2) = Group grow zero M1 g base s
      in nest grow zero M2 g' steps)"

section \<open>Handler errors at the request boundary (package nine)\<close>


















section \<open>Path parameter binding\<close>

text \<open>
  \<^verbatim>\<open>ParamsParser\<close> rewrites the registered pattern with two fixed regular
  expressions, compiles the result, matches it against the request path and
  sets the fields of the destination struct by reflection.
\<close>

subsection \<open>Pattern translation\<close>

text \<open>
  \<^verbatim>\<open>ReplaceAllString\<close> for the expression \<^verbatim>\<open>{([^/]+)}\<close> and the template
  \<^verbatim>\<open>(?P<$1>[^/]+)\<close>: matches are taken from the left and do not overlap. At an
  opening brace the greedy \<^verbatim>\<open>[^/]+\<close> runs to the end of the segment and gives
  back characters until a closing brace follows, so the capture ends before the
  last closing brace of the segment, and is not empty.
\<close>

definition segment :: "string \<Rightarrow> string" where
  "segment s = takeWhile (\<lambda>c. c \<noteq> CHR ''/'') s"

fun last_closing :: "string \<Rightarrow> nat \<Rightarrow> nat option" where
  "last_closing [] i = None"
| "last_closing (c # s) i =
     (case last_closing s (Suc i) of
        Some j \<Rightarrow> Some j
      | None \<Rightarrow> if c = CHR ''}'' \<and> 0 < i then Some i else None)"

function replace_braces :: "string \<Rightarrow> string" where
  "replace_braces [] = []"
| "replace_braces (c # s) =
     (if c = CHR ''{'' then
        (case last_closing (segment s) 0 of
           None \<Rightarrow> c # replace_braces s
         | Some j \<Rightarrow> ''(?P<'' @ take j s @ ''>[^/]+)'' @ replace_braces (drop (Suc j) s))
      else c # replace_braces s)"
  by pat_completeness auto
termination
  by (relation "measure length") auto

text \<open>
  The same for \<^verbatim>\<open>:([^/]+)\<close>: a colon with at least one character of the segment
  after it, and the capture is the rest of the segment.
\<close>

function replace_colons :: "string \<Rightarrow> string" where
  "replace_colons [] = []"
| "replace_colons (c # s) =
     (if c = CHR '':'' \<and> segment s \<noteq> [] then
        ''(?P<'' @ segment s @ ''>[^/]+)'' @ replace_colons (drop (length (segment s)) s)
      else c # replace_colons s)"
  by pat_completeness auto
termination
  by (relation "measure length") auto

definition translate :: "string \<Rightarrow> string" where
  "translate pattern = replace_colons (replace_braces pattern)"

subsection \<open>The libraries\<close>

text \<open>
  Package \<^verbatim>\<open>regexp\<close>, as far as \<^verbatim>\<open>ParamsParser\<close> uses it on the translated pattern:
  \<^verbatim>\<open>MustCompile\<close> yields a compiled expression or panics (\<open>None\<close>),
  \<^verbatim>\<open>FindStringSubmatch\<close> yields nil (\<open>None\<close>) or the match and its submatches,
  \<^verbatim>\<open>SubexpNames\<close> the names of the groups, the first one empty.
\<close>

record 'rx regexp =
  MustCompile :: "string \<Rightarrow> 'rx option"
  FindStringSubmatch :: "'rx \<Rightarrow> string \<Rightarrow> string list option"
  SubexpNames :: "'rx \<Rightarrow> string list"

text \<open>
  Package \<^verbatim>\<open>strconv\<close>: each function yields the value or fails (\<open>None\<close>). The
  base is always 10; the second argument is the bit size. \<open>'f\<close> is the type of
  floating-point numbers.
\<close>

record 'f strconv =
  Atoi :: "string \<Rightarrow> int option"
  ParseInt :: "string \<Rightarrow> nat \<Rightarrow> int option"
  ParseUint :: "string \<Rightarrow> nat \<Rightarrow> nat option"
  ParseFloat :: "string \<Rightarrow> nat \<Rightarrow> 'f option"
  ParseBool :: "string \<Rightarrow> bool option"

subsection \<open>The destination struct\<close>

datatype Kind =
    reflect_String
  | reflect_Int | reflect_Int8 | reflect_Int16 | reflect_Int32 | reflect_Int64
  | reflect_Uint | reflect_Uint8 | reflect_Uint16 | reflect_Uint32 | reflect_Uint64
  | reflect_Float32 | reflect_Float64
  | reflect_Bool
  | reflect_other string

datatype 'f field_value =
    string_val string
  | int_val int
  | uint_val nat
  | float_val 'f
  | bool_val bool
  | unsupported_val

text \<open>
  A field of the struct as reflection shows it: its declared name, the value of
  its \<^verbatim>\<open>param\<close> tag (empty when there is none), its kind, whether it can be set
  (\<^verbatim>\<open>field.IsValid() && field.CanSet()\<close>: not when it is unexported), and what it
  holds.
\<close>

record 'f field =
  Name :: string
  Tag_param :: string
  Kind :: Kind
  CanSet :: bool
  holds :: "'f field_value"

datatype params_error =
    erro_ao_converter string string
  | tipo_nao_suportado Kind

datatype 'a go_result = Panicked | Returned 'a

subsection \<open>ParamsParser\<close>

text \<open>
  The loop over \<^verbatim>\<open>regex.SubexpNames()\<close>, from index \<open>i\<close> on: a named group stores
  \<^verbatim>\<open>match[i]\<close> under its name; an index beyond the match panics.
\<close>

fun collect ::
  "string list \<Rightarrow> string list \<Rightarrow> nat \<Rightarrow> (string \<rightharpoonup> string) \<Rightarrow> (string \<rightharpoonup> string) go_result" where
  "collect [] match i params = Returned params"
| "collect (name # names) match i params =
     (if 0 < i \<and> name \<noteq> [] then
        (if i < length match then collect names match (Suc i) (params(name \<mapsto> match ! i))
         else Panicked)
      else collect names match (Suc i) params)"

text \<open>The switch on \<^verbatim>\<open>field.Kind()\<close>.\<close>

definition set_field :: "'f strconv \<Rightarrow> 'f field \<Rightarrow> string \<Rightarrow> params_error + 'f field" where
  "set_field conv f paramValue =
     (case Kind f of
        reflect_String \<Rightarrow> Inr (f\<lparr>holds := string_val paramValue\<rparr>)
      | reflect_Int \<Rightarrow>
          (case Atoi conv paramValue of
             None \<Rightarrow> Inl (erro_ao_converter paramValue ''int'')
           | Some intVal \<Rightarrow> Inr (f\<lparr>holds := int_val intVal\<rparr>))
      | reflect_Int8 \<Rightarrow>
          (case ParseInt conv paramValue 8 of
             None \<Rightarrow> Inl (erro_ao_converter paramValue ''int8'')
           | Some intVal \<Rightarrow> Inr (f\<lparr>holds := int_val intVal\<rparr>))
      | reflect_Int16 \<Rightarrow>
          (case ParseInt conv paramValue 16 of
             None \<Rightarrow> Inl (erro_ao_converter paramValue ''int16'')
           | Some intVal \<Rightarrow> Inr (f\<lparr>holds := int_val intVal\<rparr>))
      | reflect_Int32 \<Rightarrow>
          (case ParseInt conv paramValue 32 of
             None \<Rightarrow> Inl (erro_ao_converter paramValue ''int32'')
           | Some intVal \<Rightarrow> Inr (f\<lparr>holds := int_val intVal\<rparr>))
      | reflect_Int64 \<Rightarrow>
          (case ParseInt conv paramValue 64 of
             None \<Rightarrow> Inl (erro_ao_converter paramValue ''int64'')
           | Some intVal \<Rightarrow> Inr (f\<lparr>holds := int_val intVal\<rparr>))
      | reflect_Uint \<Rightarrow>
          (case ParseUint conv paramValue 0 of
             None \<Rightarrow> Inl (erro_ao_converter paramValue ''uint'')
           | Some uintVal \<Rightarrow> Inr (f\<lparr>holds := uint_val uintVal\<rparr>))
      | reflect_Uint8 \<Rightarrow>
          (case ParseUint conv paramValue 8 of
             None \<Rightarrow> Inl (erro_ao_converter paramValue ''uint8'')
           | Some uintVal \<Rightarrow> Inr (f\<lparr>holds := uint_val uintVal\<rparr>))
      | reflect_Uint16 \<Rightarrow>
          (case ParseUint conv paramValue 16 of
             None \<Rightarrow> Inl (erro_ao_converter paramValue ''uint16'')
           | Some uintVal \<Rightarrow> Inr (f\<lparr>holds := uint_val uintVal\<rparr>))
      | reflect_Uint32 \<Rightarrow>
          (case ParseUint conv paramValue 32 of
             None \<Rightarrow> Inl (erro_ao_converter paramValue ''uint32'')
           | Some uintVal \<Rightarrow> Inr (f\<lparr>holds := uint_val uintVal\<rparr>))
      | reflect_Uint64 \<Rightarrow>
          (case ParseUint conv paramValue 64 of
             None \<Rightarrow> Inl (erro_ao_converter paramValue ''uint64'')
           | Some uintVal \<Rightarrow> Inr (f\<lparr>holds := uint_val uintVal\<rparr>))
      | reflect_Float32 \<Rightarrow>
          (case ParseFloat conv paramValue 32 of
             None \<Rightarrow> Inl (erro_ao_converter paramValue ''float32'')
           | Some floatVal \<Rightarrow> Inr (f\<lparr>holds := float_val floatVal\<rparr>))
      | reflect_Float64 \<Rightarrow>
          (case ParseFloat conv paramValue 64 of
             None \<Rightarrow> Inl (erro_ao_converter paramValue ''float64'')
           | Some floatVal \<Rightarrow> Inr (f\<lparr>holds := float_val floatVal\<rparr>))
      | reflect_Bool \<Rightarrow>
          (case ParseBool conv paramValue of
             None \<Rightarrow> Inl (erro_ao_converter paramValue ''bool'')
           | Some boolVal \<Rightarrow> Inr (f\<lparr>holds := bool_val boolVal\<rparr>))
      | reflect_other k \<Rightarrow> Inl (tipo_nao_suportado (reflect_other k)))"

definition paramName :: "'f field \<Rightarrow> string" where
  "paramName f = (if Tag_param f = [] then Name f else Tag_param f)"

text \<open>
  One round of the loop over the fields: the field as the round leaves it, or
  the error the round returns. A field without a captured parameter of its
  name, and a field that cannot be set, is passed over.
\<close>

definition bind_field ::
  "'f strconv \<Rightarrow> (string \<rightharpoonup> string) \<Rightarrow> 'f field \<Rightarrow> params_error + 'f field" where
  "bind_field conv params f =
     (case params (paramName f) of
        None \<Rightarrow> Inr f
      | Some paramValue \<Rightarrow> if CanSet f then set_field conv f paramValue else Inr f)"

text \<open>
  The loop. The struct is changed in place, so the fields set before an error
  stay set; the result is the error (or none) and the struct after the call.
\<close>

fun bind_fields ::
  "'f strconv \<Rightarrow> (string \<rightharpoonup> string) \<Rightarrow> 'f field list \<Rightarrow> params_error option \<times> 'f field list" where
  "bind_fields conv params [] = (None, [])"
| "bind_fields conv params (f # fs) =
     (case bind_field conv params f of
        Inl err \<Rightarrow> (Some err, f # fs)
      | Inr f' \<Rightarrow> (case bind_fields conv params fs of (err, fs') \<Rightarrow> (err, f' # fs')))"

text \<open>
  The parameters captured from the path: none when the path does not match.
\<close>

definition captured :: "'rx regexp \<Rightarrow> 'rx \<Rightarrow> string \<Rightarrow> (string \<rightharpoonup> string) go_result" where
  "captured lib regex path =
     (case FindStringSubmatch lib regex path of
        None \<Rightarrow> Returned Map.empty
      | Some match \<Rightarrow> collect (SubexpNames lib regex) match 0 Map.empty)"

text \<open>
  \<open>pattern\<close> is the registered pattern (\<^verbatim>\<open>c.pathRegistred()\<close>) and \<open>path\<close> the path of
  the request URL, which \<^verbatim>\<open>net/http\<close> has percent-decoded; \<open>dest\<close> is the struct
  the argument points to.
\<close>

definition ParamsParser ::
  "'rx regexp \<Rightarrow> 'f strconv \<Rightarrow> string \<Rightarrow> string \<Rightarrow> 'f field list \<Rightarrow>
   (params_error option \<times> 'f field list) go_result" where
  "ParamsParser lib conv pattern path dest =
     (case MustCompile lib (translate pattern) of
        None \<Rightarrow> Panicked
      | Some regex \<Rightarrow>
          (case captured lib regex path of
             Panicked \<Rightarrow> Panicked
           | Returned params \<Rightarrow> Returned (bind_fields conv params dest)))"

subsection \<open>The libraries on plain patterns\<close>

text \<open>
  For concrete runs: package \<^verbatim>\<open>regexp\<close> on the expressions that are a sequence of
  literal characters, none of them a metacharacter, and of groups
  \<^verbatim>\<open>(?P<name>[^/]+)\<close> with a name of letters, digits and underscores. This is what
  translation makes of a pattern of plain characters and named segments; every
  other expression is left out (\<open>None\<close>). Matching is leftmost, and a group takes
  the longest run that lets the rest match.
\<close>

datatype piece = Lit char | Named string

definition word_char :: "char \<Rightarrow> bool" where
  "word_char c = (c = CHR ''_'' \<or> c \<in> set ''0123456789'' \<or>
     c \<in> set ''abcdefghijklmnopqrstuvwxyz'' \<or> c \<in> set ''ABCDEFGHIJKLMNOPQRSTUVWXYZ'')"

definition meta_char :: "char \<Rightarrow> bool" where
  "meta_char c = (c = CHR 0x5C \<or> c \<in> set ''.+*?()|[]{}^$'')"

function parse_pieces :: "string \<Rightarrow> piece list option" where
  "parse_pieces [] = Some []"
| "parse_pieces (c # s) =
     (if take 4 (c # s) = ''(?P<'' then
        (let name = takeWhile (\<lambda>d. d \<noteq> CHR ''>'') (drop 3 s);
             rest = drop (3 + length name) s
         in if name \<noteq> [] \<and> list_all word_char name \<and> take 7 rest = ''>[^/]+)''
            then map_option ((#) (Named name)) (parse_pieces (drop 7 rest))
            else None)
      else if meta_char c then None
      else map_option ((#) (Lit c)) (parse_pieces s))"
  by pat_completeness auto
termination
  by (relation "measure length") auto

fun match_pieces :: "piece list \<Rightarrow> string \<Rightarrow> (string list \<times> string) option" where
  "match_pieces [] s = Some ([], s)"
| "match_pieces (Lit c # ps) s =
     (case s of [] \<Rightarrow> None | d # s' \<Rightarrow> if d = c then match_pieces ps s' else None)"
| "match_pieces (Named n # ps) s =
     (case filter (\<lambda>(k, r). r \<noteq> None)
             (map (\<lambda>k. (k, match_pieces ps (drop k s))) (rev [1..<Suc (length (segment s))])) of
        [] \<Rightarrow> None
      | (k, r) # _ \<Rightarrow> map_option (\<lambda>(caps, rest). (take k s # caps, rest)) r)"

fun find_pieces :: "piece list \<Rightarrow> string \<Rightarrow> string list option" where
  "find_pieces ps [] =
     (case match_pieces ps [] of Some (caps, rest) \<Rightarrow> Some ([] # caps) | None \<Rightarrow> None)"
| "find_pieces ps (c # s) =
     (case match_pieces ps (c # s) of
        Some (caps, rest) \<Rightarrow> Some (take (length (c # s) - length rest) (c # s) # caps)
      | None \<Rightarrow> find_pieces ps s)"

fun piece_names :: "piece list \<Rightarrow> string list" where
  "piece_names [] = []"
| "piece_names (Lit c # ps) = piece_names ps"
| "piece_names (Named n # ps) = n # piece_names ps"

definition plain_regexp :: "piece list regexp" where
  "plain_regexp =
     \<lparr>MustCompile = parse_pieces, FindStringSubmatch = find_pieces,
      SubexpNames = (\<lambda>ps. [] # piece_names ps)\<rparr>"

text \<open>
  Package \<^verbatim>\<open>strconv\<close> on texts that are no numbers and no truth values: every
  function fails.
\<close>

definition no_number :: "unit strconv" where
  "no_number =
     \<lparr>Atoi = (\<lambda>s. None), ParseInt = (\<lambda>s bits. None), ParseUint = (\<lambda>s bits. None),
      ParseFloat = (\<lambda>s bits. None), ParseBool = (\<lambda>s. None)\<rparr>"

text \<open>
  The percent-decoding \<^verbatim>\<open>net/http\<close> applies to the path of a request: \<^verbatim>\<open>%\<close> and two
  hexadecimal digits stand for one byte; a malformed escape is refused.
\<close>

definition unhex :: "char \<Rightarrow> nat option" where
  "unhex c = map_of (zip ''0123456789abcdef'' [0..<16] @ zip ''ABCDEF'' [10..<16]) c"

fun unescape :: "string \<Rightarrow> string option" where
  "unescape [] = Some []"
| "unescape [c] = (if c = CHR ''%'' then None else Some [c])"
| "unescape [c, d] = (if c = CHR ''%'' then None else map_option ((#) c) (unescape [d]))"
| "unescape (c # d # e # s) =
     (if c = CHR ''%'' then
        (case (unhex d, unhex e) of
           (Some h, Some l) \<Rightarrow> map_option ((#) (char_of (16 * h + l))) (unescape s)
         | _ \<Rightarrow> None)
      else map_option ((#) c) (unescape (d # e # s)))"

declare Itoa.simps [simp del]
declare validate_middlewares.simps [simp del]

section \<open>Path joining\<close>

lemma TrimPrefix_slash: "TrimPrefix s ''/'' = (case s of [] \<Rightarrow> [] | c # t \<Rightarrow> if c = CHR ''/'' then t else s)"
  by (cases s) (auto simp: TrimPrefix_def HasPrefix_def)

lemma TrimSuffix_slash: "TrimSuffix s ''/'' = (if s \<noteq> [] \<and> last s = CHR ''/'' then butlast s else s)"
proof (cases s rule: rev_cases)
  case Nil
  then show ?thesis by (simp add: TrimSuffix_def HasSuffix_def)
next
  case (snoc ys y)
  then show ?thesis by (auto simp: TrimSuffix_def HasSuffix_def)
qed

lemma TrimPrefix_nonempty: "p \<noteq> ''/'' \<Longrightarrow> p \<noteq> '''' \<Longrightarrow> TrimPrefix p ''/'' \<noteq> []"
  by (cases p) (auto simp: TrimPrefix_slash)

lemma TrimSuffix_nonempty: "p \<noteq> ''/'' \<Longrightarrow> p \<noteq> '''' \<Longrightarrow> TrimSuffix p ''/'' \<noteq> []"
  by (cases p rule: rev_cases) (auto simp: TrimSuffix_slash)

lemma TrimSuffix_append: "y \<noteq> [] \<Longrightarrow> TrimSuffix (x @ y) ''/'' = x @ TrimSuffix y ''/''"
  by (simp add: TrimSuffix_slash butlast_append)

lemma TrimSuffix_Cons: "y \<noteq> [] \<Longrightarrow> TrimSuffix (c # y) ''/'' = c # TrimSuffix y ''/''"
  by (simp add: TrimSuffix_slash)

lemma TrimPrefix_append: "x \<noteq> [] \<Longrightarrow> TrimPrefix (x @ y) ''/'' = TrimPrefix x ''/'' @ y"
  by (cases x) (auto simp: TrimPrefix_slash)

lemma Trim_commute: "TrimSuffix (TrimPrefix b ''/'') ''/'' = TrimPrefix (TrimSuffix b ''/'') ''/''"
proof (cases b)
  case Nil
  then show ?thesis by (simp add: TrimSuffix_slash TrimPrefix_slash)
next
  case (Cons c t)
  show ?thesis
  proof (cases t rule: rev_cases)
    case Nil
    with Cons show ?thesis by (simp add: TrimSuffix_slash TrimPrefix_slash)
  next
    case (snoc u d)
    with Cons show ?thesis by (simp add: TrimSuffix_slash TrimPrefix_slash)
  qed
qed

lemma fullPath_join: "p \<noteq> ''/'' \<Longrightarrow> p \<noteq> '''' \<Longrightarrow>
  fullPath g p = TrimSuffix (basePath g) ''/'' @ ''/'' @ TrimPrefix p ''/''"
  by (simp add: fullPath_def Concat_def separator_def)

lemma fullPath_trivial: "p = ''/'' \<or> p = '''' \<Longrightarrow> fullPath g p = basePath g"
  by (auto simp: fullPath_def)

lemma join_nontrivial:
  assumes "c \<noteq> ''/''" "c \<noteq> ''''"
  shows "x @ ''/'' @ TrimPrefix c ''/'' \<noteq> ''/''" "x @ ''/'' @ TrimPrefix c ''/'' \<noteq> ''''"
  using TrimPrefix_nonempty[OF assms] by (cases x; auto)+

lemma fullPath_assoc:
  "fullPath (RouteGroup s1 (fullPath (RouteGroup s2 a m2) b) m1) c =
   fullPath (RouteGroup s3 a m3) (fullPath (RouteGroup s4 b m4) c)"
proof (cases "c = ''/'' \<or> c = ''''")
  case True
  then show ?thesis by (auto simp: fullPath_def)
next
  case c: False
  then have c1: "c \<noteq> ''/''" and c2: "c \<noteq> ''''" by auto
  note nt = join_nontrivial[OF c1 c2]
  have tc: "TrimPrefix c ''/'' \<noteq> []" using TrimPrefix_nonempty[OF c1 c2] .
  show ?thesis
  proof (cases "b = ''/'' \<or> b = ''''")
    case True
    then have "TrimSuffix b ''/'' = []" by (auto simp: TrimSuffix_slash)
    with True c1 c2 nt[of "[]"] show ?thesis
      by (auto simp: fullPath_join fullPath_trivial TrimPrefix_slash)
  next
    case False
    then have b1: "b \<noteq> ''/''" and b2: "b \<noteq> ''''" by auto
    have tb: "TrimPrefix b ''/'' \<noteq> []" using TrimPrefix_nonempty[OF b1 b2] .
    have sb: "TrimSuffix b ''/'' \<noteq> []" using TrimSuffix_nonempty[OF b1 b2] .
    have L: "fullPath (RouteGroup s1 (fullPath (RouteGroup s2 a m2) b) m1) c =
        TrimSuffix a ''/'' @ ''/'' @ TrimSuffix (TrimPrefix b ''/'') ''/'' @ ''/'' @ TrimPrefix c ''/''"
      using tb by (simp add: fullPath_join[OF c1 c2] fullPath_join[OF b1 b2] TrimSuffix_append
          TrimSuffix_Cons)
    have R: "fullPath (RouteGroup s3 a m3) (fullPath (RouteGroup s4 b m4) c) =
        TrimSuffix a ''/'' @ ''/'' @ TrimPrefix (TrimSuffix b ''/'') ''/'' @ ''/'' @ TrimPrefix c ''/''"
      using sb nt[of "TrimSuffix b ''/''"]
      by (simp add: fullPath_join[OF c1 c2] fullPath_join TrimPrefix_append)
    show ?thesis by (simp add: L R Trim_commute)
  qed
qed

text \<open>
  C5, as stated, fails where slashes are doubled at the seam: only one slash is
  trimmed on each side, so the base \<^verbatim>\<open>/a//\<close> joined with \<^verbatim>\<open>x\<close> keeps two slashes
  between \<^verbatim>\<open>a\<close> and \<^verbatim>\<open>x\<close>.
\<close>

theorem fullPath_doubled_slash:
  "fullPath (NewRouteGroup Server ''/a//'' nil_slice) ''x'' = ''/a//x'' \<and>
   fullPath (NewRouteGroup Server ''/a//'' nil_slice) ''x'' \<noteq> ''/a/x''"
  by (simp add: fullPath_def NewRouteGroup_def Concat_def separator_def TrimSuffix_def
      TrimPrefix_def HasSuffix_def HasPrefix_def)

text \<open>
  C5 (amended): path joining by \<^verbatim>\<open>fullPath\<close> is associative. For every base path
  and every relative path other than the empty one and \<^verbatim>\<open>/\<close>, the join is the base
  with one trailing slash removed, one slash, and the relative path with one
  leading slash removed; so whenever \<open>base\<close> does not end in a slash and \<open>r\<close> is
  not empty and does not begin with one, the four joins of \<open>base\<close> or \<open>base/\<close>
  with \<open>r\<close> or \<open>/r\<close> are all \<open>base/r\<close>, with exactly one slash at the seam.
  Joining \<^verbatim>\<open>/account\<close>, \<^verbatim>\<open>/profile\<close> and \<^verbatim>\<open>/:name\<close>, each seam with or without its
  slashes, yields exactly \<^verbatim>\<open>/account/profile/:name\<close>. If the relative path is
  empty or \<^verbatim>\<open>/\<close>, the result is the group's base path unchanged.
\<close>

theorem fullPath_assoc_normalised:
  "fullPath (RouteGroup s1 (fullPath (RouteGroup s2 a m2) b) m1) c =
     fullPath (RouteGroup s2 a m2) (fullPath (RouteGroup s3 b m3) c) \<and>
   (path \<noteq> ''/'' \<and> path \<noteq> '''' \<longrightarrow>
      fullPath g path = TrimSuffix (basePath g) ''/'' @ ''/'' @ TrimPrefix path ''/'') \<and>
   (\<not> HasSuffix base ''/'' \<and> \<not> HasPrefix r ''/'' \<and> r \<noteq> '''' \<longrightarrow>
      fullPath (RouteGroup s base m) r = base @ ''/'' @ r \<and>
      fullPath (RouteGroup s (base @ ''/'') m) r = base @ ''/'' @ r \<and>
      fullPath (RouteGroup s base m) (''/'' @ r) = base @ ''/'' @ r \<and>
      fullPath (RouteGroup s (base @ ''/'') m) (''/'' @ r) = base @ ''/'' @ r) \<and>
   fullPath (RouteGroup s
       (fullPath (RouteGroup s (''/account'' @ (if t1 then ''/'' else '''')) m)
          ((if l2 then ''/'' else '''') @ ''profile'' @ (if t2 then ''/'' else ''''))) m)
     ((if l3 then ''/'' else '''') @ '':name'') = ''/account/profile/:name'' \<and>
   fullPath g '''' = basePath g \<and> fullPath g ''/'' = basePath g"
proof -
  have seam: "fullPath (RouteGroup s base m) r = base @ ''/'' @ r \<and>
      fullPath (RouteGroup s (base @ ''/'') m) r = base @ ''/'' @ r \<and>
      fullPath (RouteGroup s base m) (''/'' @ r) = base @ ''/'' @ r \<and>
      fullPath (RouteGroup s (base @ ''/'') m) (''/'' @ r) = base @ ''/'' @ r"
    if h: "\<not> HasSuffix base ''/''" "\<not> HasPrefix r ''/''" "r \<noteq> ''''"
  proof -
    from h(2,3) obtain c t where r: "r = c # t" "c \<noteq> CHR ''/''"
      by (cases r) (auto simp: HasPrefix_def)
    from h(1) have b: "base = [] \<or> last base \<noteq> CHR ''/''"
      by (cases base rule: rev_cases) (auto simp: HasSuffix_def)
    from r b show ?thesis
      by (auto simp: fullPath_def Concat_def separator_def TrimSuffix_slash TrimPrefix_slash)
  qed
  have example: "fullPath (RouteGroup s
       (fullPath (RouteGroup s (''/account'' @ (if t1 then ''/'' else '''')) m)
          ((if l2 then ''/'' else '''') @ ''profile'' @ (if t2 then ''/'' else ''''))) m)
     ((if l3 then ''/'' else '''') @ '':name'') = ''/account/profile/:name''"
    by (simp add: fullPath_def Concat_def separator_def TrimSuffix_slash TrimPrefix_slash)
  have general: "fullPath g path = TrimSuffix (basePath g) ''/'' @ ''/'' @ TrimPrefix path ''/''"
    if "path \<noteq> ''/''" "path \<noteq> ''''"
    using that by (rule fullPath_join)
  have edge: "fullPath g '''' = basePath g" "fullPath g ''/'' = basePath g"
    by (simp_all add: fullPath_trivial)
  show ?thesis
    using fullPath_assoc[of s1 s2 a m2 b m1 c s2 m2 s3 m3] seam example general edge
    by blast
qed

theorem fullPath_assoc_normalised_witness:
  "\<not> HasSuffix ''/account'' ''/'' \<and> \<not> HasPrefix ''profile'' ''/'' \<and> ''profile'' \<noteq> '''' \<and>
   ''/profile'' \<noteq> ''/'' \<and> ''/profile'' \<noteq> '''' \<and>
   fullPath (RouteGroup Server ''/account'' nil_slice) ''profile'' = ''/account/profile'' \<and>
   fullPath (RouteGroup Server ''/account/'' nil_slice) ''profile'' = ''/account/profile'' \<and>
   fullPath (RouteGroup Server ''/account'' nil_slice) ''/profile'' = ''/account/profile'' \<and>
   fullPath (RouteGroup Server ''/account/'' nil_slice) ''/profile'' = ''/account/profile'' \<and>
   fullPath (RouteGroup Server ''/account/'' nil_slice) ''/profile'' =
     TrimSuffix ''/account/'' ''/'' @ ''/'' @ TrimPrefix ''/profile'' ''/''"
  using fullPath_assoc_normalised [of Server Server "''''" nil_slice "''''" nil_slice "''''"
      Server nil_slice "''/profile''" "RouteGroup Server ''/account/'' nil_slice"
      "''/account''" "''profile''" Server nil_slice]
  by (simp add: HasSuffix_def HasPrefix_def TrimSuffix_def TrimPrefix_def)

lemma validate_middlewares_fails:
  assumes "i \<le> k" "k < lastIndex" "validateHandler mkctx (handlers ! k) = Inl e"
    and "\<forall>j. i \<le> j \<and> j < k \<longrightarrow> \<not> isl (validateHandler mkctx (handlers ! j))"
  shows "validate_middlewares mkctx handlers lastIndex i acc = Inl (middleware_at_position k e)"
  using assms
proof (induction mkctx handlers lastIndex i acc rule: validate_middlewares.induct)
  case (1 mkctx handlers lastIndex i mws)
  show ?case
  proof (cases "i = k")
    case True
    with 1 show ?thesis by (simp add: validate_middlewares.simps[of _ _ _ k])
  next
    case False
    with 1 have ik: "i < k" and il: "i < lastIndex" by auto
    from 1(5) ik have "\<not> isl (validateHandler mkctx (handlers ! i))" by auto
    then obtain m where m: "validateHandler mkctx (handlers ! i) = Inr m"
      by (cases "validateHandler mkctx (handlers ! i)") auto
    have "validate_middlewares mkctx handlers lastIndex (Suc i) (mws @ [m]) = Inl (middleware_at_position k e)"
      using 1(1)[OF il m] ik 1(3,4,5) by auto
    then show ?thesis using il m by (simp add: validate_middlewares.simps[of _ _ _ i])
  qed
qed

lemma validate_middlewares_ok:
  assumes "validate_middlewares mkctx handlers lastIndex i acc = Inr ms" "i \<le> lastIndex"
  shows "\<exists>new. ms = acc @ new \<and> length new = lastIndex - i \<and>
           (\<forall>j < lastIndex - i. validateHandler mkctx (handlers ! (i + j)) = Inr (new ! j))"
  using assms
proof (induction mkctx handlers lastIndex i acc rule: validate_middlewares.induct)
  case (1 mkctx handlers lastIndex i mws)
  show ?case
  proof (cases "i < lastIndex")
    case False
    with 1(2,3) show ?thesis by (simp add: validate_middlewares.simps[of _ _ _ i])
  next
    case True
    from 1(2) True obtain m where m: "validateHandler mkctx (handlers ! i) = Inr m"
      and rec: "validate_middlewares mkctx handlers lastIndex (Suc i) (mws @ [m]) = Inr ms"
      by (auto simp: validate_middlewares.simps[of _ _ _ i] split: sum.splits)
    from 1(1)[OF True m rec] True obtain new where
      new: "ms = (mws @ [m]) @ new" "length new = lastIndex - Suc i"
      "\<forall>j < lastIndex - Suc i. validateHandler mkctx (handlers ! (Suc i + j)) = Inr (new ! j)"
      by auto
    have "\<forall>j < lastIndex - i. validateHandler mkctx (handlers ! (i + j)) = Inr ((m # new) ! j)"
    proof (intro allI impI)
      fix j assume j: "j < lastIndex - i"
      show "validateHandler mkctx (handlers ! (i + j)) = Inr ((m # new) ! j)"
      proof (cases j)
        case 0 then show ?thesis using m by simp
      next
        case (Suc j') then show ?thesis using new(3) j by auto
      qed
    qed
    with new True show ?thesis by (intro exI[of _ "m # new"]) auto
  qed
qed

lemma validate_middlewares_total:
  assumes "\<forall>j. i \<le> j \<and> j < lastIndex \<longrightarrow> \<not> isl (validateHandler mkctx (handlers ! j))"
  shows "\<exists>ms. validate_middlewares mkctx handlers lastIndex i acc = Inr ms"
  using assms
proof (induction mkctx handlers lastIndex i acc rule: validate_middlewares.induct)
  case (1 mkctx handlers lastIndex i mws)
  show ?case
  proof (cases "i < lastIndex")
    case False
    then show ?thesis by (simp add: validate_middlewares.simps[of _ _ _ i])
  next
    case True
    with 1(2) have "\<not> isl (validateHandler mkctx (handlers ! i))" by auto
    then obtain m where m: "validateHandler mkctx (handlers ! i) = Inr m"
      by (cases "validateHandler mkctx (handlers ! i)") auto
    from 1(1)[OF True m] 1(2) obtain ms where
      "validate_middlewares mkctx handlers lastIndex (Suc i) (mws @ [m]) = Inr ms" by auto
    with True m show ?thesis by (simp add: validate_middlewares.simps[of _ _ _ i])
  qed
qed

lemma validate_middlewares_Inl:
  "validate_middlewares mkctx handlers lastIndex i acc = Inl err \<Longrightarrow>
   \<exists>k e. err = middleware_at_position k e"
proof (induction mkctx handlers lastIndex i acc rule: validate_middlewares.induct)
  case (1 mkctx handlers lastIndex i mws)
  then show ?case
    by (auto simp: validate_middlewares.simps[of _ _ _ i] split: if_splits sum.splits)
qed

lemma registerHandlers_empty_iff:
  "registerHandlers mkctx hs = Inl ErrPutAHandler \<longleftrightarrow> hs = []"
proof
  assume "hs = []" then show "registerHandlers mkctx hs = Inl ErrPutAHandler"
    by (simp add: registerHandlers_def)
next
  assume a: "registerHandlers mkctx hs = Inl ErrPutAHandler"
  show "hs = []"
  proof (rule ccontr)
    assume "hs \<noteq> []"
    with a show False
      by (auto simp: registerHandlers_def Let_def split: sum.splits dest: validate_middlewares_Inl)
  qed
qed

lemma registerHandlers_middleware_fails:
  assumes "i < length hs - 1" "validateHandler mkctx (hs ! i) = Inl e"
    "\<forall>j<i. \<not> isl (validateHandler mkctx (hs ! j))"
  shows "registerHandlers mkctx hs = Inl (middleware_at_position i e)"
proof -
  have "validate_middlewares mkctx hs (length hs - 1) 0 [] = Inl (middleware_at_position i e)"
    using assms by (intro validate_middlewares_fails) auto
  with assms(1) show ?thesis by (auto simp: registerHandlers_def Let_def)
qed

lemma registerHandlers_final_fails:
  assumes "hs \<noteq> []" "\<forall>j<length hs - 1. \<not> isl (validateHandler mkctx (hs ! j))"
    "validateHandler mkctx (last hs) = Inl e"
  shows "registerHandlers mkctx hs = Inl (final_handler e)"
proof -
  obtain ms where "validate_middlewares mkctx hs (length hs - 1) 0 [] = Inr ms"
    using validate_middlewares_total[of 0 "length hs - 1" mkctx hs "[]"] assms(2) by auto
  with assms(1,3) show ?thesis
    by (auto simp: registerHandlers_def Let_def last_conv_nth)
qed

lemma registerHandlers_success:
  assumes "registerHandlers mkctx hs = Inr (h, ms)"
  shows "hs \<noteq> [] \<and> validateHandler mkctx (last hs) = Inr h \<and>
         map (validateHandler mkctx) (butlast hs) = map Inr ms"
proof -
  from assms have ne: "hs \<noteq> []" by (auto simp: registerHandlers_def)
  from assms ne have v: "validate_middlewares mkctx hs (length hs - 1) 0 [] = Inr ms"
    and l: "validateHandler mkctx (hs ! (length hs - 1)) = Inr h"
    by (auto simp: registerHandlers_def Let_def split: sum.splits)
  from validate_middlewares_ok[OF v] have len: "length ms = length hs - 1"
    and each: "\<forall>j<length hs - 1. validateHandler mkctx (hs ! j) = Inr (ms ! j)" by auto
  have "map (validateHandler mkctx) (butlast hs) = map Inr ms"
    using len each by (intro nth_equalityI) (auto simp: nth_butlast)
  with ne l show ?thesis by (simp add: last_conv_nth)
qed

lemma registerHandlers_succeeds:
  assumes "hs \<noteq> []" "\<forall>j<length hs. \<not> isl (validateHandler mkctx (hs ! j))"
  shows "\<exists>h ms. registerHandlers mkctx hs = Inr (h, ms)"
proof -
  obtain ms where "validate_middlewares mkctx hs (length hs - 1) 0 [] = Inr ms"
    using validate_middlewares_total[of 0 "length hs - 1" mkctx hs "[]"] assms(2) by auto
  moreover have "\<not> isl (validateHandler mkctx (hs ! (length hs - 1)))"
    using assms by auto
  then obtain h where "validateHandler mkctx (hs ! (length hs - 1)) = Inr h"
    by (cases "validateHandler mkctx (hs ! (length hs - 1))") auto
  ultimately show ?thesis using assms(1) by (auto simp: registerHandlers_def Let_def)
qed

text \<open>
  C6: \<^verbatim>\<open>validateHandler\<close> fails if and only if its input is none of the four
  recognised handler shapes; the error it then returns is the invalid handler
  type error, whose text names the type of the offending value as
  \<^verbatim>\<open>reflect.TypeOf\<close> prints it; for a recognised shape it returns a handler and no
  error.
\<close>

theorem validateHandler_fails_iff_unrecognised:
  "isl (validateHandler mkctx h) = (\<not> recognised h) \<and>
   (case validateHandler mkctx h of
      Inl err \<Rightarrow> err = invalid_handler_type (TypeOf h) \<and>
        Error put err = ''invalid handler type: '' @ TypeOf h @
          '' - must be either nine.Handler or nine.HandlerWithContext''
    | Inr h' \<Rightarrow> recognised h)"
  by (cases h) (simp_all add: validateHandler_def)

text \<open>
  C3: for each of the four recognised shapes \<^verbatim>\<open>validateHandler\<close> succeeds. A
  \<^verbatim>\<open>Handler\<close> and a raw two-argument function are returned as they are; for a
  \<^verbatim>\<open>HandlerWithContext\<close> and a raw context function \<open>c\<close> the returned handler, on
  every request and response, has the outcome \<open>c\<close> has on the context built from
  that request and response.
\<close>

theorem validateHandler_same_outcome:
  "validateHandler mkctx (Handler_value h) = Inr h \<and>
   validateHandler mkctx (func_Request_Response_value h) = Inr h \<and>
   (\<exists>k. validateHandler mkctx (HandlerWithContext_value c) = Inr k \<and>
        (\<forall>req res. k req res = c (mkctx req res))) \<and>
   (\<exists>k. validateHandler mkctx (func_Context_value c) = Inr k \<and>
        (\<forall>req res. k req res = c (mkctx req res)))"
  by (simp add: validateHandler_def HandlerWithContext_Handler_def)

text \<open>
  C4: \<^verbatim>\<open>registerHandlers\<close> fails with \<^verbatim>\<open>ErrPutAHandler\<close> exactly when the list is
  empty, and the registration then leaves the route table as it was. For a
  non-empty list, the first element among the middleware (all but the last) that
  fails normalisation fails the batch with an error carrying its zero-based
  position; when all middleware pass and the last element fails, the batch fails
  with the final-handler error; the two errors and their texts differ. On
  success the terminal handler is the normalised last element and the middleware
  are the normalised preceding elements, in order; a non-empty list of
  recognised values succeeds.
\<close>

theorem registerHandlers_outcomes:
  "(registerHandlers mkctx hs = Inl ErrPutAHandler \<longleftrightarrow> hs = []) \<and>
   Server_registerRoute mkctx routes m endpoint [] = (Some ErrPutAHandler, routes) \<and>
   (\<forall>i e. i < length hs - 1 \<and> validateHandler mkctx (hs ! i) = Inl e \<and>
          (\<forall>j<i. \<not> isl (validateHandler mkctx (hs ! j))) \<longrightarrow>
      registerHandlers mkctx hs = Inl (middleware_at_position i e)) \<and>
   (\<forall>e. hs \<noteq> [] \<and> (\<forall>j<length hs - 1. \<not> isl (validateHandler mkctx (hs ! j))) \<and>
        validateHandler mkctx (last hs) = Inl e \<longrightarrow>
      registerHandlers mkctx hs = Inl (final_handler e)) \<and>
   (\<forall>i e e'. middleware_at_position i e \<noteq> final_handler e' \<and>
        Error put (middleware_at_position i e) \<noteq> Error put (final_handler e')) \<and>
   (\<forall>h ms. registerHandlers mkctx hs = Inr (h, ms) \<longrightarrow>
      validateHandler mkctx (last hs) = Inr h \<and>
      map (validateHandler mkctx) (butlast hs) = map Inr ms) \<and>
   (hs \<noteq> [] \<and> (\<forall>j<length hs. \<not> isl (validateHandler mkctx (hs ! j))) \<longrightarrow>
      (\<exists>h ms. registerHandlers mkctx hs = Inr (h, ms)))"
proof -
  have route: "Server_registerRoute mkctx routes m endpoint [] = (Some ErrPutAHandler, routes)"
    by (simp add: Server_registerRoute_def registerHandlers_def)
  have texts: "middleware_at_position i e \<noteq> final_handler e' \<and>
      Error put (middleware_at_position i e) \<noteq> Error put (final_handler e')" for i e e'
    by simp
  have mid: "registerHandlers mkctx hs = Inl (middleware_at_position i e)"
    if "i < length hs - 1 \<and> validateHandler mkctx (hs ! i) = Inl e \<and>
        (\<forall>j<i. \<not> isl (validateHandler mkctx (hs ! j)))" for i e
    using that by (intro registerHandlers_middleware_fails) auto
  have fin: "registerHandlers mkctx hs = Inl (final_handler e)"
    if "hs \<noteq> [] \<and> (\<forall>j<length hs - 1. \<not> isl (validateHandler mkctx (hs ! j))) \<and>
        validateHandler mkctx (last hs) = Inl e" for e
    using that by (intro registerHandlers_final_fails) auto
  have ok: "validateHandler mkctx (last hs) = Inr h \<and>
      map (validateHandler mkctx) (butlast hs) = map Inr ms"
    if "registerHandlers mkctx hs = Inr (h, ms)" for h ms
    using registerHandlers_success[OF that] by simp
  have tot: "\<exists>h ms. registerHandlers mkctx hs = Inr (h, ms)"
    if "hs \<noteq> [] \<and> (\<forall>j<length hs. \<not> isl (validateHandler mkctx (hs ! j)))"
    using that by (intro registerHandlers_succeeds) auto
  show ?thesis
    using registerHandlers_empty_iff[of mkctx hs] route texts mid fin ok tot by blast
qed

theorem registerHandlers_outcomes_witness:
  "registerHandlers (\<lambda>(q::unit) (s::unit). ())
     [Handler_value (\<lambda>q s. False), other_value ''int'', Handler_value (\<lambda>q s. True)] =
     Inl (middleware_at_position 1 (invalid_handler_type ''int'')) \<and>
   registerHandlers (\<lambda>(q::unit) (s::unit). ())
     [Handler_value (\<lambda>q s. False), (nil_value :: (unit, unit, unit, bool) any)] =
     Inl (final_handler (invalid_handler_type ''<nil>'')) \<and>
   (\<exists>h ms. registerHandlers (\<lambda>(q::unit) (s::unit). ())
     [func_Context_value (\<lambda>c. False), Handler_value (\<lambda>q s. True)] = Inr (h, ms) \<and>
     validateHandler (\<lambda>(q::unit) (s::unit). ()) (Handler_value (\<lambda>q s. True)) = Inr h \<and>
     [validateHandler (\<lambda>(q::unit) (s::unit). ()) (func_Context_value (\<lambda>c. False))] = map Inr ms)"
proof -
  let ?mk = "\<lambda>(q::unit) (s::unit). ()"
  let ?a = "[Handler_value (\<lambda>q s. False), other_value ''int'', Handler_value (\<lambda>q s. True)]
    :: (unit, unit, unit, bool) any list"
  let ?b = "[Handler_value (\<lambda>q s. False), nil_value] :: (unit, unit, unit, bool) any list"
  let ?c = "[func_Context_value (\<lambda>c. False), Handler_value (\<lambda>q s. True)]
    :: (unit, unit, unit, bool) any list"
  have a: "registerHandlers ?mk ?a = Inl (middleware_at_position 1 (invalid_handler_type ''int''))"
  proof -
    from registerHandlers_outcomes[of ?mk ?a]
    have r: "\<And>i e. i < length ?a - 1 \<Longrightarrow> validateHandler ?mk (?a ! i) = Inl e \<Longrightarrow>
        (\<forall>j<i. \<not> isl (validateHandler ?mk (?a ! j))) \<Longrightarrow>
        registerHandlers ?mk ?a = Inl (middleware_at_position i e)"
      by blast
    show ?thesis by (rule r[of 1]) (simp_all add: validateHandler_def)
  qed
  have b: "registerHandlers ?mk ?b = Inl (final_handler (invalid_handler_type ''<nil>''))"
  proof -
    from registerHandlers_outcomes[of ?mk ?b]
    have r: "\<And>e. ?b \<noteq> [] \<Longrightarrow> (\<forall>j<length ?b - 1. \<not> isl (validateHandler ?mk (?b ! j))) \<Longrightarrow>
        validateHandler ?mk (last ?b) = Inl e \<Longrightarrow> registerHandlers ?mk ?b = Inl (final_handler e)"
      by blast
    show ?thesis by (rule r) (simp_all add: validateHandler_def)
  qed
  have "\<forall>j<length ?c. \<not> isl (validateHandler ?mk (?c ! j))"
    by (simp add: validateHandler_def less_Suc_eq)
  then obtain h ms where c: "registerHandlers ?mk ?c = Inr (h, ms)"
    using registerHandlers_outcomes[of ?mk ?c] by blast
  then have "validateHandler ?mk (last ?c) = Inr h \<and>
      map (validateHandler ?mk) (butlast ?c) = map Inr ms"
    using registerHandlers_outcomes[of ?mk ?c] by blast
  with a b c show ?thesis by auto
qed

section \<open>Slices, groups and what reaches the root server\<close>

lemma length_rd: "valid M s \<Longrightarrow> length (rd M s) = len s"
  by (auto simp: valid_def rd_def)

lemma rd_nil [simp]: "rd M nil_slice = []"
  by (simp add: rd_def nil_slice_def)

lemma valid_nil [simp]: "valid M nil_slice"
  by (simp add: valid_def nil_slice_def)

lemma length_overwrite: "i + length xs \<le> length a \<Longrightarrow> length (overwrite a i xs) = length a"
  by (simp add: overwrite_def)

lemma take_drop_overwrite:
  assumes "k + l + length xs \<le> length a"
  shows "take (l + length xs) (drop k (overwrite a (k + l) xs)) = take l (drop k a) @ xs"
proof -
  have "drop k (overwrite a (k + l) xs) = take l (drop k a) @ xs @ drop (k + l + length xs) a"
    using assms by (simp add: overwrite_def drop_take)
  moreover have "length (take l (drop k a)) = l" using assms by simp
  ultimately show ?thesis by simp
qed

lemma take_drop_overwrite_before:
  assumes "k + l + length xs \<le> length a"
  shows "take l (drop k (overwrite a (k + l) xs)) = take l (drop k a)"
proof -
  have "drop k (overwrite a (k + l) xs) = take l (drop k a) @ xs @ drop (k + l + length xs) a"
    using assms by (simp add: overwrite_def drop_take)
  moreover have "length (take l (drop k a)) = l" using assms by simp
  ultimately show ?thesis by simp
qed

lemma rd_fresh:
  "n \<noteq> 0 \<Longrightarrow> rd (M @ [a]) \<lparr>arr = length M, off = 0, len = n, cap = c\<rparr> = take n a"
  by (simp add: rd_def)

lemma append_slice_in_place:
  assumes v: "valid M s" and xs: "xs \<noteq> []" and fit: "len s + length xs \<le> cap s"
  shows "append_slice grow zero M s xs =
           (s\<lparr>len := len s + length xs\<rparr>, M[arr s := overwrite (M ! arr s) (off s + len s) xs])"
  using xs fit by (simp add: append_slice_def Let_def)

lemma append_slice_spec:
  assumes v: "valid M s" and a: "append_slice grow zero M s xs = (s', M')"
  shows "rd M' s' = rd M s @ xs \<and> rd M' s = rd M s \<and> valid M' s' \<and> valid M' s \<and>
         length M \<le> length M'"
proof (cases "xs = []")
  case True
  with a v show ?thesis by (auto simp: append_slice_def)
next
  case xs: False
  show ?thesis
  proof (cases "len s + length xs \<le> cap s")
    case True
    with xs have c: "cap s \<noteq> 0" by (cases xs) auto
    with v have ar: "arr s < length M" and fit: "off s + cap s \<le> length (M ! arr s)"
      and lc: "len s \<le> cap s"
      by (auto simp: valid_def)
    from a xs True have s': "s' = s\<lparr>len := len s + length xs\<rparr>"
      and M': "M' = M[arr s := overwrite (M ! arr s) (off s + len s) xs]"
      by (auto simp: append_slice_def Let_def)
    have le: "off s + len s + length xs \<le> length (M ! arr s)" using True fit by simp
    have nth: "M' ! arr s = overwrite (M ! arr s) (off s + len s) xs"
      using ar by (simp add: M')
    have r1: "rd M' s' = rd M s @ xs"
      using xs take_drop_overwrite[OF le] by (simp add: rd_def s' nth)
    have r2: "rd M' s = rd M s"
      using take_drop_overwrite_before[OF le] by (simp add: rd_def nth)
    have v1: "valid M' s'" using True ar fit le
      by (simp add: valid_def s' M' length_overwrite)
    have v2: "valid M' s" using lc ar fit le
      by (simp add: valid_def M' length_overwrite)
    from r1 r2 v1 v2 show ?thesis by (simp add: M')
  next
    case False
    define n where "n = len s + length xs"
    define c where "c = max n (grow (cap s) n)"
    from a xs False have s': "s' = \<lparr>arr = length M, off = 0, len = n, cap = c\<rparr>"
      and M': "M' = M @ [rd M s @ xs @ replicate (c - n) zero]"
      by (auto simp: append_slice_def Let_def n_def c_def)
    have nc: "n \<le> c" by (simp add: c_def)
    have lr: "length (rd M s) = len s" using v by (rule length_rd)
    have "rd M' s' = take n (rd M s @ xs @ replicate (c - n) zero)"
      using xs unfolding s' M' by (intro rd_fresh) (simp add: n_def)
    then have r1: "rd M' s' = rd M s @ xs"
      using lr by (simp add: n_def)
    have r2: "rd M' s = rd M s"
      using v by (auto simp: rd_def M' valid_def nth_append)
    have v1: "valid M' s'" using nc lr by (simp add: valid_def s' M' n_def)
    have v2: "valid M' s" using v by (auto simp: valid_def M' nth_append)
    from r1 r2 v1 v2 show ?thesis by (simp add: M')
  qed
qed

lemma variadic_spec:
  assumes "variadic M xs = (s, M')"
  shows "rd M' s = xs \<and> valid M' s \<and> length M \<le> length M'"
  using assms by (auto simp: variadic_def rd_def valid_def nil_slice_def split: if_splits)

lemma RouteGroup_Group_spec:
  assumes v: "valid M mws"
    and g: "RouteGroup_Group grow zero M (RouteGroup srv b mws) base ms = (g', M')"
  shows "rd M' (middlewares g') = rd M mws @ rd M ms \<and> rd M' mws = rd M mws \<and>
         basePath g' = fullPath (RouteGroup srv b mws) base \<and> server g' = srv \<and>
         valid M' (middlewares g') \<and> valid M' mws"
proof -
  obtain s M1 where a: "append_slice grow zero M mws (rd M ms) = (s, M1)"
    by (cases "append_slice grow zero M mws (rd M ms)")
  with g have g': "g' = RouteGroup srv (fullPath (RouteGroup srv b mws) base) s" and M': "M' = M1"
    by (auto simp: RouteGroup_Group_def NewRouteGroup_def)
  from append_slice_spec[OF v a] show ?thesis by (simp add: g' M')
qed

text \<open>
  C7: for every group \<open>g\<close> (whose middleware slice is a well-formed slice of the
  memory, as every slice of a running program is), \<^verbatim>\<open>g.Group(basePath, ms...)\<close>
  returns a new group whose middleware chain is \<open>g\<close>'s chain followed by \<open>ms\<close>, in
  that order, whose base path is the join of \<open>g\<close>'s base path and \<^verbatim>\<open>basePath\<close> and
  which registers with the manager \<open>g\<close> registers with. The call leaves \<open>g\<close>'s
  middleware chain as it was, also when \<^verbatim>\<open>append\<close> wrote into the array \<open>g\<close>'s
  slice views; the fields of \<open>g\<close> are never assigned. The new group's slice is
  well formed again, so the same holds for a group made from it, at any depth.
\<close>

theorem RouteGroup_Group_extends_and_preserves:
  "valid M mws \<Longrightarrow>
   RouteGroup_Group grow zero M (RouteGroup srv b mws) base ms = (g', M') \<Longrightarrow>
   rd M' (middlewares g') = rd M mws @ rd M ms \<and>
   rd M' (middlewares (RouteGroup srv b mws)) = rd M mws \<and>
   basePath g' = fullPath (RouteGroup srv b mws) base \<and>
   server g' = srv \<and>
   valid M' (middlewares g') \<and> valid M' mws"
  using RouteGroup_Group_spec[of M mws grow zero srv b base ms g' M'] by simp

theorem RouteGroup_Group_extends_and_preserves_witness:
  "valid [[''m1'', ''nil''], [''m2'']] \<lparr>arr = 0, off = 0, len = 1, cap = 2\<rparr> \<and>
   RouteGroup_Group (\<lambda>c n. 2 * c) ''nil'' [[''m1'', ''nil''], [''m2'']]
       (RouteGroup Server ''/a'' \<lparr>arr = 0, off = 0, len = 1, cap = 2\<rparr>) ''/b''
       \<lparr>arr = 1, off = 0, len = 1, cap = 1\<rparr> =
     (RouteGroup Server ''/a/b'' \<lparr>arr = 0, off = 0, len = 2, cap = 2\<rparr>,
      [[''m1'', ''m2''], [''m2'']]) \<and>
   rd [[''m1'', ''m2''], [''m2'']] \<lparr>arr = 0, off = 0, len = 2, cap = 2\<rparr> = [''m1'', ''m2''] \<and>
   rd [[''m1'', ''m2''], [''m2'']] \<lparr>arr = 0, off = 0, len = 1, cap = 2\<rparr> = [''m1''] \<and>
   valid [[''m1'', ''m2''], [''m2'']] \<lparr>arr = 0, off = 0, len = 2, cap = 2\<rparr>"
proof -
  let ?M = "[[''m1'', ''nil''], [''m2'']]"
  let ?s = "\<lparr>arr = 0, off = 0, len = 1, cap = 2\<rparr>"
  let ?t = "\<lparr>arr = 1, off = 0, len = 1, cap = 1\<rparr>"
  let ?g' = "RouteGroup Server ''/a/b'' \<lparr>arr = 0, off = 0, len = 2, cap = 2\<rparr>"
  let ?M' = "[[''m1'', ''m2''], [''m2'']]"
  have v: "valid ?M ?s" by (simp add: valid_def)
  have r: "RouteGroup_Group (\<lambda>c n. 2 * c) ''nil'' ?M (RouteGroup Server ''/a'' ?s) ''/b'' ?t =
      (?g', ?M')"
    by (simp add: RouteGroup_Group_def append_slice_def rd_def overwrite_def NewRouteGroup_def
        fullPath_def Concat_def separator_def TrimSuffix_def TrimPrefix_def HasSuffix_def
        HasPrefix_def)
  have rm: "rd ?M ?s = [''m1'']" "rd ?M ?t = [''m2'']" by (simp_all add: rd_def)
  from RouteGroup_Group_extends_and_preserves[OF v r] v r rm show ?thesis by simp
qed

text \<open>
  What holds of registration: a group that registers with the root server
  delivers what its slice reads at the time of the call, followed by the
  handlers supplied; and when a chain of groups is made one after the other
  from arguments written at the call sites, with no other call in between, the
  last group delivers the middleware of the whole chain, outer to inner,
  followed by the handlers supplied.
\<close>

lemma valid_mono_variadic:
  "valid M s \<Longrightarrow> variadic M xs = (t, M') \<Longrightarrow> valid M' s \<and> rd M' s = rd M s"
  by (auto simp: variadic_def valid_def rd_def nth_append split: if_splits)

lemma RouteGroup_Group_is_group:
  "RouteGroup_Group grow zero M g base ms = (g', M') \<Longrightarrow>
   \<exists>s. g' = RouteGroup (server g) (fullPath g base) s"
  by (auto simp: RouteGroup_Group_def NewRouteGroup_def split: prod.splits)

lemma per_verb_root_group:
  assumes "valid M mws"
    and "per_verb grow zero M (RouteGroup Server b mws) m path hs = (r, M')"
  shows "reg_handlers r = rd M mws @ hs \<and> reg_method r = m \<and>
         reg_endpoint r = fullPath (RouteGroup Server b mws) path"
proof -
  obtain s M1 where a: "append_slice grow zero M mws hs = (s, M1)"
    by (cases "append_slice grow zero M mws hs")
  from append_slice_spec[OF assms(1) a] have "rd M1 s = rd M mws @ hs" by simp
  with assms(2) a show ?thesis by (auto simp: routeHandlers_def)
qed

lemma nest_from_group:
  assumes "valid M mws" "nest grow zero M (RouteGroup Server b mws) steps = (g, M')"
  shows "\<exists>b' mws'. g = RouteGroup Server b' mws' \<and> valid M' mws' \<and>
           rd M' mws' = rd M mws @ concat (map snd steps)"
  using assms
proof (induction steps arbitrary: M b mws)
  case Nil
  then show ?case by auto
next
  case (Cons step steps)
  obtain base ms where step: "step = (base, ms)" by (cases step)
  obtain s M1 where v: "variadic M ms = (s, M1)" by (cases "variadic M ms")
  obtain g1 M2 where gr: "RouteGroup_Group grow zero M1 (RouteGroup Server b mws) base s = (g1, M2)"
    by (cases "RouteGroup_Group grow zero M1 (RouteGroup Server b mws) base s")
  from valid_mono_variadic[OF Cons.prems(1) v] have v1: "valid M1 mws" and r1: "rd M1 mws = rd M mws"
    by auto
  from variadic_spec[OF v] have rs: "rd M1 s = ms" by simp
  from RouteGroup_Group_is_group[OF gr] obtain b1 mws1 where
    g1: "g1 = RouteGroup Server b1 mws1" by auto
  from RouteGroup_Group_spec[OF v1 gr] g1 have v2: "valid M2 mws1"
    and r2: "rd M2 mws1 = rd M1 mws @ rd M1 s"
    by auto
  from Cons.prems(2) step v gr g1 have n: "nest grow zero M2 (RouteGroup Server b1 mws1) steps = (g, M')"
    by simp
  from Cons.IH[OF v2 n] r2 r1 rs step show ?case by auto
qed

lemma nest_delivery:
  assumes "nest grow zero M Server ((base, ms) # steps) = (g, M')"
    and "per_verb grow zero M' g m path hs = (r, M'')"
  shows "reg_handlers r = ms @ concat (map snd steps) @ hs \<and> reg_method r = m"
proof -
  obtain s M1 where v: "variadic M ms = (s, M1)" by (cases "variadic M ms")
  from variadic_spec[OF v] have vs: "valid M1 s" and rs: "rd M1 s = ms" by auto
  from assms(1) v have n: "nest grow zero M1 (RouteGroup Server base s) steps = (g, M')"
    by (simp add: Server_Group_def NewRouteGroup_def)
  from nest_from_group[OF vs n] obtain b' mws' where g: "g = RouteGroup Server b' mws'"
    and v': "valid M' mws'" and r': "rd M' mws' = rd M1 s @ concat (map snd steps)" by blast
  from per_verb_root_group[OF v' assms(2)[unfolded g]] r' rs show ?thesis by simp
qed

text \<open>
  C2 does not hold of the code: \<^verbatim>\<open>RouteGroup.Route\<close> makes the new group with
  \<^verbatim>\<open>g.server.Group(g.fullPath(basePath))\<close>, which passes no middleware, where
  \<^verbatim>\<open>RouteGroup.Group\<close> appends to \<^verbatim>\<open>g.middlewares\<close>. For the group \<^verbatim>\<open>/a\<close> of the root
  server with the one middleware \<open>m1\<close>, \<^verbatim>\<open>Route("/b", fn)\<close> calls \<open>fn\<close> with a group
  whose base path is \<^verbatim>\<open>/a/b\<close> and whose middleware chain is empty, while the chain
  of \<^verbatim>\<open>/a\<close> is \<open>[m1]\<close>.
\<close>

theorem RouteGroup_Route_drops_middleware:
  "(let (ms, M1) = variadic [] [''m1''];
        g = Server_Group ''/a'' ms
    in RouteGroup_Route grow zero M1 g ''/b''
         (\<lambda>M r. (basePath r, rd M (middlewares r), rd M (middlewares g)))) =
   (''/a/b'', [], [''m1''])"
  by (simp add: variadic_def Server_Group_def NewRouteGroup_def RouteGroup_Route_def rd_def
      nil_slice_def fullPath_def Concat_def separator_def TrimSuffix_def TrimPrefix_def
      HasSuffix_def HasPrefix_def)

text \<open>
  C1 does not hold of the code. \<^verbatim>\<open>routeHandlers\<close> and \<^verbatim>\<open>Group\<close> call
  \<^verbatim>\<open>append(g.middlewares, ...)\<close>, which writes into the array behind \<open>g\<close>'s slice
  when that has room, and a group made from \<open>g\<close> views the same array.
  First equation: \<^verbatim>\<open>/a\<close> is made from a slice of length 1 and capacity 2 holding
  \<open>m1\<close>, \<^verbatim>\<open>/a/b\<close> is made from it with \<open>m2\<close>, and its chain is \<open>[m1, m2]\<close>; then
  \<^verbatim>\<open>/a\<close> registers \<^verbatim>\<open>/y\<close> with the handler \<open>h1\<close>, and a route \<^verbatim>\<open>/x\<close> of \<^verbatim>\<open>/a/b\<close> with
  the handler \<open>h\<close> reaches the root server as \<open>[m1, h1, h]\<close>: \<open>m2\<close> is lost and the
  handler of another route runs as middleware. Second equation: the same with
  arguments written at the call sites only, where the runtime doubles the
  capacity when a slice grows. Third equation: a route registered in the group
  that \<^verbatim>\<open>Route\<close> hands to its callback reaches the root server without the
  middleware \<open>m1\<close> of the group \<^verbatim>\<open>Route\<close> was called on.
\<close>

theorem per_verb_delivery_loses_group_middleware:
  "(let M0 = [[''m1'', zero]];
        g = Server_Group ''/a'' \<lparr>arr = 0, off = 0, len = 1, cap = 2\<rparr>;
        (s2, M1) = variadic M0 [''m2''];
        (c, M2) = RouteGroup_Group grow zero M1 g ''/b'' s2;
        (r1, M3) = RouteGroup_Get grow zero M2 g ''/y'' [''h1''];
        (r2, M4) = RouteGroup_Get grow zero M3 c ''/x'' [''h'']
    in (rd M2 (middlewares c), r1, r2)) =
     ([''m1'', ''m2''],
      \<lparr>reg_method = GET, reg_endpoint = ''/a/y'', reg_handlers = [''m1'', ''h1'']\<rparr>,
      \<lparr>reg_method = GET, reg_endpoint = ''/a/b/x'', reg_handlers = [''m1'', ''h1'', ''h'']\<rparr>) \<and>
   (let (s1, M1) = variadic [] [''m1'', ''m2''];
        g = Server_Group ''/a'' s1;
        (s2, M2) = variadic M1 [''m3''];
        (p, M3) = RouteGroup_Group (\<lambda>c n. 2 * c) zero M2 g ''/p'' s2;
        (s3, M4) = variadic M3 [''m4''];
        (c, M5) = RouteGroup_Group (\<lambda>c n. 2 * c) zero M4 p ''/b'' s3;
        (r1, M6) = RouteGroup_Get (\<lambda>c n. 2 * c) zero M5 p ''/y'' [''h1''];
        (r2, M7) = RouteGroup_Get (\<lambda>c n. 2 * c) zero M6 c ''/x'' [''h'']
    in (rd M5 (middlewares c), r2)) =
     ([''m1'', ''m2'', ''m3'', ''m4''],
      \<lparr>reg_method = GET, reg_endpoint = ''/a/p/b/x'',
         reg_handlers = [''m1'', ''m2'', ''m3'', ''h1'', ''h'']\<rparr>) \<and>
   (let (ms, M1) = variadic [] [''m1''];
        g = Server_Group ''/a'' ms
    in RouteGroup_Route grow zero M1 g ''/b''
         (\<lambda>M r. fst (RouteGroup_Get grow zero M r ''/x'' [''h'']))) =
     \<lparr>reg_method = GET, reg_endpoint = ''/a/b/x'', reg_handlers = [''h'']\<rparr>"
  by (simp add: variadic_def Server_Group_def NewRouteGroup_def RouteGroup_Route_def
      RouteGroup_Group_def RouteGroup_Get_def routeHandlers_def append_slice_def rd_def
      overwrite_def nil_slice_def fullPath_def Concat_def separator_def TrimSuffix_def
      TrimPrefix_def HasSuffix_def HasPrefix_def Let_def)

section \<open>Handler errors\<close>




section \<open>Path parameter binding\<close>

lemma bind_fields_empty: "bind_fields conv Map.empty dest = (None, dest)"
  by (induction dest) (simp_all add: bind_field_def)












lemma translate_colon_example: "translate ''/account/:name'' = ''/account/(?P<name>[^/]+)''"
  by code_simp
lemma translate_brace_example: "translate ''/account/{name}'' = ''/account/(?P<name>[^/]+)''"
  by code_simp
lemma compile_account_name: "MustCompile plain_regexp (translate ''/account/:name'') =
   Some (map Lit ''/account/'' @ [Named ''name''])"
  by code_simp
lemma find_account_Ann_Lee: "FindStringSubmatch plain_regexp (map Lit ''/account/'' @ [Named ''name'']) ''/account/Ann Lee''
   = Some [''/account/Ann Lee'', ''Ann Lee'']"
  by code_simp
lemma find_orders_none: "FindStringSubmatch plain_regexp (map Lit ''/account/'' @ [Named ''name'']) ''/orders/7'' = None"
  by code_simp
lemma unescape_Ann_Lee: "unescape ''/account/Ann%20Lee'' = Some ''/account/Ann Lee''"
  by code_simp

text \<open>
  C10: for every destination struct and every request path that the translated
  pattern, compiled, does not match, \<^verbatim>\<open>ParamsParser\<close> returns no error and leaves
  every field of the struct as it was.
\<close>

theorem ParamsParser_no_match:
  "MustCompile lib (translate pattern) = Some regex \<Longrightarrow>
   FindStringSubmatch lib regex path = None \<Longrightarrow>
   ParamsParser lib conv pattern path dest = Returned (None, dest)"
  by (simp add: ParamsParser_def captured_def bind_fields_empty)

theorem ParamsParser_no_match_witness:
  "MustCompile plain_regexp (translate ''/account/:name'') = Some (map Lit ''/account/'' @ [Named ''name'']) \<and>
   FindStringSubmatch plain_regexp (map Lit ''/account/'' @ [Named ''name'']) ''/orders/7'' = None \<and>
   ParamsParser plain_regexp no_number ''/account/:name'' ''/orders/7''
     [\<lparr>Name = ''Name'', Tag_param = ''name'', Kind = reflect_String, CanSet = True,
       holds = string_val ''before''\<rparr>] =
   Returned (None, [\<lparr>Name = ''Name'', Tag_param = ''name'', Kind = reflect_String, CanSet = True,
       holds = string_val ''before''\<rparr>])"
  using ParamsParser_no_match[OF compile_account_name find_orders_none, of no_number] compile_account_name find_orders_none by simp




end
